theory Spec2Isabelle
  imports Main "HOL-Library.Word"
begin

unbundle bit_operations_syntax

section \<open>A shallow embedding of the 16-bit accumulator machine of CPU.cpp\<close>

text \<open>
  The simulator consists of an arithmetic unit, a byte memory of 4096 cells with
  big-endian word access, three 16-bit registers and the fetch/execute engine, plus a
  small loader that assembles a text file into memory. Each C++ function becomes a HOL
  function of the same name. A thrown exception becomes a value of type \<open>error\<close>;
  a method that mutates the machine returns the machine it leaves behind together with
  the exception it threw, if any. Console output is not modelled.
\<close>

type_synonym uint8_t = "8 word"
type_synonym uint16_t = "16 word"

text \<open>
  The three throw sites of the program: \<open>std::out_of_range\<close> in the memory
  (address out of range), \<open>std::runtime_error\<close> in the arithmetic unit (division by
  zero) and \<open>std::runtime_error\<close> in the default branch of the dispatch (unknown
  instruction). \<open>std::stoi\<close> throws \<open>std::invalid_argument\<close> and
  \<open>std::out_of_range\<close> of its own in the loader.
\<close>

datatype error = OutOfRange | DivisionByZero | UnknownOpcode | InvalidArgument | StoiOutOfRange

subsection \<open>class ALU\<close>

text \<open>
  The operands are \<open>uint16_t\<close>; C++ promotes them to \<open>int\<close> before the operation
  and converts the \<open>int\<close> result back to \<open>uint16_t\<close> on return, which reduces it
  modulo \<open>2^16\<close>. \<open>uint\<close> is the promotion and \<open>word_of_int\<close> the conversion
  back. Both operands are non-negative, so the truncating \<open>/\<close> and \<open>%\<close> of C++
  coincide with \<open>div\<close> and \<open>mod\<close> on \<open>int\<close>. The product of two promoted
  operands is taken as the mathematical product: it fits a 32-bit \<open>int\<close> whenever
  it is below \<open>2^31\<close> (always so for the calls \<open>execute\<close> makes, see
  \<open>execute_mul_fits_int\<close>), and beyond that a two's complement product has the same
  low 16 bits.
\<close>

definition ALU_add :: "uint16_t \<Rightarrow> uint16_t \<Rightarrow> uint16_t" where
  "ALU_add a b = word_of_int (uint a + uint b)"

definition ALU_mul :: "uint16_t \<Rightarrow> uint16_t \<Rightarrow> uint16_t" where
  "ALU_mul a b = word_of_int (uint a * uint b)"

definition ALU_div :: "uint16_t \<Rightarrow> uint16_t \<Rightarrow> error + uint16_t" where
  "ALU_div a b = (if b = 0 then Inl DivisionByZero else Inr (word_of_int (uint a div uint b)))"

definition ALU_mod :: "uint16_t \<Rightarrow> uint16_t \<Rightarrow> error + uint16_t" where
  "ALU_mod a b = (if b = 0 then Inl DivisionByZero else Inr (word_of_int (uint a mod uint b)))"

subsection \<open>class Memory\<close>

definition MEM_SIZE :: int where
  "MEM_SIZE = 4096"

record Memory =
  mpt :: "32 word"
  mem :: "uint8_t list"

text \<open>The constructor: \<open>mpt = 0\<close> and 4096 zero bytes.\<close>

definition Memory_init :: Memory where
  "Memory_init = \<lparr> mpt = 0, mem = replicate (nat MEM_SIZE) 0 \<rparr>"

text \<open>
  The vector never changes its size after construction; every memory the program can
  hold satisfies this invariant (\<open>Memory_init_ok\<close>, \<open>writeWord_ok\<close>,
  \<open>cycles_Memory_ok\<close>).
\<close>

definition Memory_ok :: "Memory \<Rightarrow> bool" where
  "Memory_ok m = (length (mem m) = nat MEM_SIZE)"

text \<open>
  \<open>readWord\<close>: the two bytes are promoted to \<open>int\<close>, the first is shifted left by
  8, and the disjunction is converted to \<open>uint16_t\<close>. The address is a C++
  \<open>int\<close>; no arithmetic on it can overflow, since \<open>address + 1\<close> is only
  computed below 4095.
\<close>

definition readWord :: "Memory \<Rightarrow> int \<Rightarrow> error + uint16_t" where
  "readWord m address =
     (if address < 0 \<or> address \<ge> MEM_SIZE - 1 then Inl OutOfRange
      else Inr (word_of_int (push_bit 8 (uint (mem m ! nat address))
                             OR uint (mem m ! nat (address + 1)))))"

definition writeWord :: "Memory \<Rightarrow> int \<Rightarrow> uint16_t \<Rightarrow> error + Memory" where
  "writeWord m address v =
     (if address < 0 \<or> address \<ge> MEM_SIZE - 1 then Inl OutOfRange
      else Inr (m\<lparr> mem := ((mem m)[nat address := word_of_int (drop_bit 8 (uint v) AND 0xFF)])
                              [nat (address + 1) := word_of_int (uint v AND 0xFF)] \<rparr>))"

subsection \<open>class Register\<close>

record Register =
  reg_value :: uint16_t

definition Register_init :: Register where
  "Register_init = \<lparr> reg_value = 0 \<rparr>"

definition Register_read :: "Register \<Rightarrow> uint16_t" where
  "Register_read r = reg_value r"

definition Register_write :: "Register \<Rightarrow> uint16_t \<Rightarrow> Register" where
  "Register_write r val = r\<lparr> reg_value := val \<rparr>"

subsection \<open>class CPU\<close>

text \<open>
  The CPU owns its three registers and refers to a memory owned by \<open>main\<close>. There is
  one memory and one CPU, so the memory is a field of the machine state.
\<close>

record CPU =
  PC :: Register
  IR :: Register
  AC :: Register
  memory :: Memory

definition CPU_init :: "Memory \<Rightarrow> CPU" where
  "CPU_init m = \<lparr> PC = Register_init, IR = Register_init, AC = Register_init, memory = m \<rparr>"

text \<open>
  A method returns the exception it threw (\<open>None\<close> for a normal return) and the
  machine as it stands at that moment.
\<close>

type_synonym outcome = "error option \<times> CPU"

definition fetch :: "CPU \<Rightarrow> outcome" where
  "fetch c =
     (let address = Register_read (PC c) in
      case readWord (memory c) (uint address) of
        Inl e \<Rightarrow> (Some e, c)
      | Inr instruction \<Rightarrow>
          (let c1 = c\<lparr> IR := Register_write (IR c) instruction \<rparr>;
               c2 = c1\<lparr> PC := Register_write (PC c1) (word_of_int (uint address + 2)) \<rparr>
           in (None, c2)))"

definition decode_opcode :: "uint16_t \<Rightarrow> uint16_t" where
  "decode_opcode instruction = word_of_int (drop_bit 12 (uint instruction) AND 0xF)"

definition decode_operand :: "uint16_t \<Rightarrow> uint16_t" where
  "decode_operand instruction = word_of_int (uint instruction AND 0xFFF)"

definition execute :: "CPU \<Rightarrow> outcome" where
  "execute c =
     (let instruction = Register_read (IR c);
          opcode = decode_opcode instruction;
          operand = decode_operand instruction
      in
        if opcode = 0xF then (None, c\<lparr> AC := Register_write (AC c) operand \<rparr>)
        else if opcode = 0x2 then (None, c\<lparr> AC := Register_write (AC c) (ALU_add (Register_read (AC c)) operand) \<rparr>)
        else if opcode = 0x3 then (None, c\<lparr> AC := Register_write (AC c) (ALU_mul (Register_read (AC c)) operand) \<rparr>)
        else if opcode = 0x4 then
          (case ALU_div (Register_read (AC c)) operand of
             Inl e \<Rightarrow> (Some e, c)
           | Inr q \<Rightarrow> (None, c\<lparr> AC := Register_write (AC c) q \<rparr>))
        else if opcode = 0x5 then
          (case ALU_mod (Register_read (AC c)) operand of
             Inl e \<Rightarrow> (Some e, c)
           | Inr r \<Rightarrow> (None, c\<lparr> AC := Register_write (AC c) r \<rparr>))
        else if opcode = 0x1 then
          (case writeWord (memory c) (uint operand) (Register_read (AC c)) of
             Inl e \<Rightarrow> (Some e, c)
           | Inr m \<Rightarrow> (None, c\<lparr> memory := m \<rparr>))
        else if opcode = 0x0 then
          (case readWord (memory c) (uint operand) of
             Inl e \<Rightarrow> (Some e, c)
           | Inr w \<Rightarrow> (None, c\<lparr> AC := Register_write (AC c) w \<rparr>))
        else (Some UnknownOpcode, c))"

text \<open>One pass through the body of the loop of \<open>run\<close>: \<open>fetch(); execute();\<close>.\<close>

definition cycle :: "CPU \<Rightarrow> outcome" where
  "cycle c = (case fetch c of (Some e, c1) \<Rightarrow> (Some e, c1) | (None, c1) \<Rightarrow> execute c1)"

text \<open>
  The first \<open>n\<close> passes of the loop of \<open>run\<close>, which leaves the loop at the first
  exception.
\<close>

fun cycles :: "nat \<Rightarrow> CPU \<Rightarrow> outcome" where
  "cycles 0 c = (None, c)"
| "cycles (Suc n) c =
     (case cycle c of (Some e, c1) \<Rightarrow> (Some e, c1) | (None, c1) \<Rightarrow> cycles n c1)"

text \<open>
  \<open>run\<close>: the loop repeats \<open>fetch(); execute();\<close> until one of them throws; the
  exception is caught, reported, and ends the loop. The debug print and the optional
  memory dump between two passes write to the console only. The result is the
  exception that ended the loop and the machine at that moment. The loop always ends,
  since every pass advances \<open>PC\<close> and \<open>fetch\<close> fails beyond address 4094; the
  termination proof follows \<open>cycle_PC\<close> below.
\<close>

function run :: "CPU \<Rightarrow> error \<times> CPU" where
  "run c = (case cycle c of (Some e, c1) \<Rightarrow> (e, c1) | (None, c1) \<Rightarrow> run c1)"
  by pat_completeness auto

subsection \<open>loadProgram\<close>

text \<open>
  The file is the string of its characters. \<open>std::getline\<close> fails at the end of the
  file when it extracts nothing; otherwise it returns the characters up to the next
  newline and consumes that newline.
\<close>

definition newline :: char where
  "newline = CHR 0x0A"

definition getline :: "string \<Rightarrow> (string \<times> string) option" where
  "getline s =
     (if s = [] then None
      else Some (takeWhile (\<lambda>ch. ch \<noteq> newline) s,
                 drop 1 (dropWhile (\<lambda>ch. ch \<noteq> newline) s)))"

text \<open>
  \<open>line.find(' ')\<close> is the index of the first space, or \<open>npos\<close> (here \<open>None\<close>).
  \<open>line.substr(0, npos)\<close> is the whole line, and so is \<open>line.substr(npos + 1)\<close>,
  since \<open>npos + 1\<close> wraps to 0.
\<close>

definition find_space :: "string \<Rightarrow> nat option" where
  "find_space line =
     (if CHR '' '' \<in> set line
      then Some (length (takeWhile (\<lambda>ch. ch \<noteq> CHR '' '') line)) else None)"

definition substr_to :: "string \<Rightarrow> nat option \<Rightarrow> string" where
  "substr_to line pos = (case pos of None \<Rightarrow> line | Some k \<Rightarrow> take k line)"

definition substr_after :: "string \<Rightarrow> nat option \<Rightarrow> string" where
  "substr_after line pos = (case pos of None \<Rightarrow> line | Some k \<Rightarrow> drop (k + 1) line)"

text \<open>
  \<open>std::stoi(str, nullptr, 16)\<close>: leading white space, an optional sign, an optional
  \<open>0x\<close> prefix, then the longest run of hexadecimal digits. No digit at all is
  \<open>std::invalid_argument\<close>; a value outside the range of \<open>int\<close> is
  \<open>std::out_of_range\<close>.
\<close>

definition isspace :: "char \<Rightarrow> bool" where
  "isspace ch = (ch \<in> set [CHR '' '', CHR 0x09, CHR 0x0A, CHR 0x0B, CHR 0x0C, CHR 0x0D])"

definition isxdigit :: "char \<Rightarrow> bool" where
  "isxdigit ch =
     (let k = (of_char ch :: nat) in
      (48 \<le> k \<and> k \<le> 57) \<or> (65 \<le> k \<and> k \<le> 70) \<or> (97 \<le> k \<and> k \<le> 102))"

definition digit_value :: "char \<Rightarrow> int" where
  "digit_value ch =
     (let k = (of_char ch :: int) in
      if k \<le> 57 then k - 48 else if k \<le> 70 then k - 55 else k - 87)"

definition hex_value :: "string \<Rightarrow> int" where
  "hex_value ds = foldl (\<lambda>acc ch. 16 * acc + digit_value ch) 0 ds"

definition stoi16 :: "string \<Rightarrow> error + int" where
  "stoi16 str =
     (let s1 = dropWhile isspace str;
          neg = (s1 \<noteq> [] \<and> hd s1 = CHR ''-'');
          s2 = (if s1 \<noteq> [] \<and> (hd s1 = CHR ''-'' \<or> hd s1 = CHR ''+'') then tl s1 else s1);
          s3 = (if length s2 \<ge> 3 \<and> s2 ! 0 = CHR ''0''
                   \<and> (s2 ! 1 = CHR ''x'' \<or> s2 ! 1 = CHR ''X'') \<and> isxdigit (s2 ! 2)
                then drop 2 s2 else s2);
          ds = takeWhile isxdigit s3;
          v = (if neg then - hex_value ds else hex_value ds)
      in if ds = [] then Inl InvalidArgument
         else if v < - (2 ^ 31) \<or> 2 ^ 31 - 1 < v then Inl StoiOutOfRange
         else Inr v)"

text \<open>The chain of comparisons on the mnemonic; an unknown mnemonic leaves 0.\<close>

definition opcodeBinary_of :: "string \<Rightarrow> uint16_t" where
  "opcodeBinary_of opcode =
     (if opcode = ''SEA'' then 0xF
      else if opcode = ''ADD'' then 0x2
      else if opcode = ''MUL'' then 0x3
      else if opcode = ''DIV'' then 0x4
      else if opcode = ''MOD'' then 0x5
      else if opcode = ''STA'' then 0x1
      else if opcode = ''LDA'' then 0x0
      else 0)"

text \<open>
  The body of the loop for one non-empty line: the instruction word it assembles, or
  the exception of \<open>std::stoi\<close>.
\<close>

definition assemble :: "string \<Rightarrow> error + uint16_t" where
  "assemble line =
     (let opcode = substr_to line (find_space line);
          operand = substr_after line (find_space line);
          opcodeBinary = opcodeBinary_of opcode
      in case stoi16 operand of
           Inl e \<Rightarrow> Inl e
         | Inr n \<Rightarrow>
             (let operandBinary = (word_of_int n :: uint16_t)
              in Inr (word_of_int (push_bit 12 (uint opcodeBinary) OR uint operandBinary))))"

lemma getline_shorter: "getline s = Some (line, rest) \<Longrightarrow> length rest < length s"
proof -
  assume g: "getline s = Some (line, rest)"
  then have ne: "s \<noteq> []" and r: "rest = drop 1 (dropWhile (\<lambda>ch. ch \<noteq> newline) s)"
    by (auto simp: getline_def split: if_splits)
  have "length (dropWhile (\<lambda>ch. ch \<noteq> newline) s) \<le> length s"
    by (rule length_dropWhile_le)
  with ne r show ?thesis by (cases s) auto
qed

text \<open>
  The \<open>while (std::getline(file, line))\<close> loop. An exception leaves the loop and the
  function with the memory as written so far.
\<close>

function loadLoop :: "Memory \<Rightarrow> int \<Rightarrow> string \<Rightarrow> error option \<times> Memory" where
  "loadLoop m address s =
     (case getline s of
        None \<Rightarrow> (None, m)
      | Some (line, rest) \<Rightarrow>
          if line = [] then loadLoop m address rest
          else
            (case assemble line of
               Inl e \<Rightarrow> (Some e, m)
             | Inr instruction \<Rightarrow>
                 (case writeWord m address instruction of
                    Inl e \<Rightarrow> (Some e, m)
                  | Inr m' \<Rightarrow> loadLoop m' (address + 2) rest)))"
  by pat_completeness auto
termination
  by (relation "measure (\<lambda>(m, address, s). length s)") (auto dest: getline_shorter)

text \<open>A file that cannot be opened (\<open>None\<close>) leaves the memory as it is.\<close>

definition loadProgram :: "Memory \<Rightarrow> string option \<Rightarrow> error option \<times> Memory" where
  "loadProgram m file = (case file of None \<Rightarrow> (None, m) | Some s \<Rightarrow> loadLoop m 0 s)"

declare loadLoop.simps [simp del]

subsection \<open>Program texts\<close>

text \<open>
  The lines of a file, as the loop of \<open>loadProgram\<close> sees them: what successive
  calls of \<open>std::getline\<close> return.
\<close>

function lines_of :: "string \<Rightarrow> string list" where
  "lines_of s = (case getline s of None \<Rightarrow> [] | Some (line, rest) \<Rightarrow> line # lines_of rest)"
  by pat_completeness auto
termination
  by (relation "measure length") (auto dest: getline_shorter)

declare lines_of.simps [simp del]

text \<open>The file whose lines are \<open>ls\<close>, each ended by a newline.\<close>

definition text_of_lines :: "string list \<Rightarrow> string" where
  "text_of_lines ls = concat (map (\<lambda>l. l @ [newline]) ls)"

text \<open>
  The program source format as the specification words it, independent of the
  loader's code: a line is \<open>MNEMONIC OPERAND\<close> with one of the seven mnemonics of the
  table, one space, and a hexadecimal literal whose value fits 12 bits; its instruction
  word is \<open>(opcode << 12) | operand\<close>.
\<close>

definition spec_mnemonics :: "(string \<times> uint16_t) list" where
  "spec_mnemonics =
     [(''SEA'', 0xF), (''ADD'', 0x2), (''MUL'', 0x3), (''DIV'', 0x4), (''MOD'', 0x5),
      (''STA'', 0x1), (''LDA'', 0x0)]"

definition spec_digit :: "char \<Rightarrow> nat option" where
  "spec_digit ch =
     map_of [(CHR ''0'', 0), (CHR ''1'', 1), (CHR ''2'', 2), (CHR ''3'', 3), (CHR ''4'', 4),
             (CHR ''5'', 5), (CHR ''6'', 6), (CHR ''7'', 7), (CHR ''8'', 8), (CHR ''9'', 9),
             (CHR ''a'', 10), (CHR ''b'', 11), (CHR ''c'', 12), (CHR ''d'', 13),
             (CHR ''e'', 14), (CHR ''f'', 15),
             (CHR ''A'', 10), (CHR ''B'', 11), (CHR ''C'', 12), (CHR ''D'', 13),
             (CHR ''E'', 14), (CHR ''F'', 15)] ch"

fun spec_hex :: "nat \<Rightarrow> string \<Rightarrow> nat option" where
  "spec_hex acc [] = Some acc"
| "spec_hex acc (ch # cs) =
     (case spec_digit ch of None \<Rightarrow> None | Some d \<Rightarrow> spec_hex (16 * acc + d) cs)"

definition spec_operand :: "string \<Rightarrow> nat option" where
  "spec_operand h =
     (if h = [] then None
      else case spec_hex 0 h of
             None \<Rightarrow> None
           | Some v \<Rightarrow> if v < 4096 then Some v else None)"

definition spec_line :: "string \<Rightarrow> uint16_t option" where
  "spec_line l =
     (case map_of spec_mnemonics (take 3 l) of
        None \<Rightarrow> None
      | Some opc \<Rightarrow>
          if 3 < length l \<and> l ! 3 = CHR '' '' then
            (case spec_operand (drop 4 l) of
               None \<Rightarrow> None
             | Some v \<Rightarrow> Some (push_bit 12 opc OR of_nat v))
          else None)"

text \<open>
  The lines the loader does not skip are the non-empty ones: \<open>line.empty()\<close> holds
  of the line of length zero only, so a line of white space (a space, a lone carriage
  return) is not skipped. A program is well formed when each of its non-empty lines is.
\<close>

definition nonempty_lines :: "string \<Rightarrow> string list" where
  "nonempty_lines s = filter (\<lambda>l. l \<noteq> []) (lines_of s)"

definition spec_program :: "string \<Rightarrow> bool" where
  "spec_program s = list_all (\<lambda>l. spec_line l \<noteq> None) (nonempty_lines s)"

text \<open>The loop of \<open>loadProgram\<close> over the lines already split.\<close>

fun load_lines :: "Memory \<Rightarrow> int \<Rightarrow> string list \<Rightarrow> error option \<times> Memory" where
  "load_lines m address [] = (None, m)"
| "load_lines m address (line # ls) =
     (if line = [] then load_lines m address ls
      else
        (case assemble line of
           Inl e \<Rightarrow> (Some e, m)
         | Inr instruction \<Rightarrow>
             (case writeWord m address instruction of
                Inl e \<Rightarrow> (Some e, m)
              | Inr m' \<Rightarrow> load_lines m' (address + 2) ls)))"

section \<open>The arithmetic unit\<close>

lemma ALU_add_word: "ALU_add a b = a + b"
  by (simp add: ALU_add_def)

lemma ALU_mul_word: "ALU_mul a b = a * b"
  by (simp add: ALU_mul_def)

lemma ALU_div_word: "ALU_div a b = (if b = 0 then Inl DivisionByZero else Inr (a div b))"
  by (simp add: ALU_div_def word_div_def)

lemma ALU_mod_word: "ALU_mod a b = (if b = 0 then Inl DivisionByZero else Inr (a mod b))"
  by (simp add: ALU_mod_def word_mod_def)

text \<open>
  Claim C6. For all 16-bit \<open>a\<close> and \<open>b\<close>, \<open>add\<close> returns \<open>(a + b) mod 2^16\<close> and
  \<open>mul\<close> returns \<open>(a * b) mod 2^16\<close>: both wrap, neither saturates, and neither
  can fail (they are total functions into \<open>uint16_t\<close>). In particular
  \<open>add(0xFFFF, 1) = 0x0000\<close>.
\<close>

theorem ALU_add_mul_wrap:
  "unat (ALU_add a b) = (unat a + unat b) mod 2 ^ 16
   \<and> unat (ALU_mul a b) = (unat a * unat b) mod 2 ^ 16
   \<and> ALU_add 0xFFFF 1 = 0x0000"
  by (simp add: ALU_add_word ALU_mul_word unat_word_ariths)

text \<open>
  Claim C5. With a zero divisor \<open>div\<close> and \<open>mod\<close> fail with \<open>DivisionByZero\<close>.
  With a non-zero divisor they return the quotient and the remainder of the unsigned
  values: the quotient \<open>q\<close> and the remainder \<open>r\<close> satisfy \<open>a = q * b + r\<close> with
  \<open>r < b\<close>, which is division truncated towards zero, and they are the native
  16-bit unsigned \<open>div\<close> and \<open>mod\<close>.
\<close>

theorem ALU_div_mod_correct:
  "(b = 0 \<longrightarrow> ALU_div a b = Inl DivisionByZero \<and> ALU_mod a b = Inl DivisionByZero)
   \<and> (b \<noteq> 0 \<longrightarrow>
        (\<exists>q r. ALU_div a b = Inr q \<and> ALU_mod a b = Inr r
           \<and> unat q = unat a div unat b \<and> unat r = unat a mod unat b
           \<and> unat a = unat q * unat b + unat r \<and> unat r < unat b
           \<and> q = a div b \<and> r = a mod b))"
proof (cases "b = 0")
  case True
  then show ?thesis by (simp add: ALU_div_word ALU_mod_word)
next
  case False
  then have pos: "0 < unat b" by (simp add: unat_gt_0)
  have "unat (a div b) = unat a div unat b" and "unat (a mod b) = unat a mod unat b"
    by (simp_all add: unat_div unat_mod)
  with False pos show ?thesis
    by (simp add: ALU_div_word ALU_mod_word)
qed

theorem ALU_div_mod_correct_witness:
  "ALU_div 7 0 = Inl DivisionByZero \<and> ALU_mod 7 0 = Inl DivisionByZero
   \<and> ALU_div 0xFFFF 7 = Inr 9362 \<and> ALU_mod 0xFFFF 7 = Inr 1"
  using ALU_div_mod_correct [of 0 7] ALU_div_mod_correct [of 7 "0xFFFF"]
  by simp

section \<open>The memory\<close>

lemma mask4_int: "(0xF::int) = mask 4"
  by (simp add: mask_eq_exp_minus_1)

lemma mask8_int: "(0xFF::int) = mask 8"
  by (simp add: mask_eq_exp_minus_1)

lemma mask12_int: "(0xFFF::int) = mask 12"
  by (simp add: mask_eq_exp_minus_1)

lemma Memory_init_ok: "Memory_ok Memory_init"
  by (simp add: Memory_ok_def Memory_init_def)

lemma writeWord_ok: "Memory_ok m \<Longrightarrow> writeWord m a v = Inr m' \<Longrightarrow> Memory_ok m'"
  by (auto simp: Memory_ok_def writeWord_def split: if_splits)

text \<open>The two bytes \<open>writeWord\<close> stores, read back the way \<open>readWord\<close> combines them.\<close>

lemma bytes_combine:
  "word_of_int (push_bit 8 (uint (word_of_int (drop_bit 8 (uint v) AND 0xFF) :: uint8_t))
                OR uint (word_of_int (uint v AND 0xFF) :: uint8_t)) = (v :: uint16_t)"
  unfolding mask8_int
  by (rule bit_word_eqI) (auto simp: bit_simps)

lemma high_byte_word:
  "(word_of_int (drop_bit 8 (uint v) AND 0xFF) :: uint8_t) = ucast (drop_bit 8 (v :: uint16_t))"
  unfolding mask8_int
  by (rule bit_word_eqI) (auto simp: bit_simps)

lemma low_byte_word: "(word_of_int (uint v AND 0xFF) :: uint8_t) = ucast (v :: uint16_t)"
  unfolding mask8_int
  by (rule bit_word_eqI) (auto simp: bit_simps)

lemma high_byte:
  "unat (word_of_int (drop_bit 8 (uint v) AND 0xFF) :: uint8_t) = unat (v :: uint16_t) div 256"
proof -
  have "unat v < 65536"
    using unsigned_less [of v, where ?'a = nat] by simp
  then have "unat v div 256 < 256" by simp
  then show ?thesis
    unfolding high_byte_word
    by (simp add: unsigned_ucast_eq drop_bit_eq_div take_bit_eq_mod unat_div)
qed

lemma low_byte:
  "unat (word_of_int (uint v AND 0xFF) :: uint8_t) = unat (v :: uint16_t) mod 256"
  by (simp add: low_byte_word unsigned_ucast_eq take_bit_eq_mod)

lemma readWord_range: "isl (readWord m a) = (a < 0 \<or> 4094 < a)"
  by (auto simp: readWord_def MEM_SIZE_def)

lemma writeWord_range: "isl (writeWord m a v) = (a < 0 \<or> 4094 < a)"
  by (auto simp: writeWord_def MEM_SIZE_def)

text \<open>A word access depends on the two bytes at its address only.\<close>

lemma readWord_cong:
  "mem m' ! nat a = mem m ! nat a \<Longrightarrow> mem m' ! nat (a + 1) = mem m ! nat (a + 1)
   \<Longrightarrow> readWord m' a = readWord m a"
  by (simp add: readWord_def)

lemma writeWord_mem:
  "writeWord m a v = Inr m' \<Longrightarrow>
   mem m' = ((mem m)[nat a := word_of_int (drop_bit 8 (uint v) AND 0xFF)])
              [nat (a + 1) := word_of_int (uint v AND 0xFF)]
   \<and> mpt m' = mpt m \<and> 0 \<le> a \<and> a \<le> 4094"
  by (auto simp: writeWord_def MEM_SIZE_def split: if_splits)

lemma writeWord_other_byte:
  "writeWord m a v = Inr m' \<Longrightarrow> j \<noteq> nat a \<Longrightarrow> j \<noteq> nat (a + 1) \<Longrightarrow> mem m' ! j = mem m ! j"
  by (auto dest!: writeWord_mem)

lemma readWord_writeWord_same:
  "Memory_ok m \<Longrightarrow> writeWord m a v = Inr m' \<Longrightarrow> readWord m' a = Inr v"
  by (auto simp: writeWord_def readWord_def MEM_SIZE_def Memory_ok_def bytes_combine
        nat_add_distrib split: if_splits)

lemma readWord_writeWord_other:
  assumes "writeWord m a v = Inr m'" and "b + 1 < a \<or> a + 1 < b"
  shows "readWord m' b = readWord m b"
proof (cases "b < 0 \<or> b \<ge> MEM_SIZE - 1")
  case True
  then show ?thesis by (simp add: readWord_def)
next
  case False
  from assms(1) have mm:
    "mem m' = ((mem m)[nat a := word_of_int (drop_bit 8 (uint v) AND 0xFF)])
                [nat (a + 1) := word_of_int (uint v AND 0xFF)]"
    and a: "0 \<le> a"
    by (auto dest: writeWord_mem)
  from False a assms(2) have "nat b \<noteq> nat a" "nat b \<noteq> nat (a + 1)"
    "nat (b + 1) \<noteq> nat a" "nat (b + 1) \<noteq> nat (a + 1)"
    by auto
  then show ?thesis
    by (simp add: readWord_def mm)
qed

text \<open>
  Claim C2. For every address \<open>a\<close> in \<open>[0, 4094]\<close> and every 16-bit \<open>v\<close>,
  \<open>writeWord(a, v)\<close> succeeds and \<open>readWord(a)\<close> then returns \<open>v\<close>; the high byte
  of \<open>v\<close> is stored at \<open>a\<close> and the low byte at \<open>a + 1\<close> (big-endian). The memory
  is any memory of the program, that is, one whose vector has its 4096 cells.
\<close>

theorem writeWord_readWord_roundtrip:
  assumes "Memory_ok m" and "0 \<le> a" and "a \<le> 4094"
  shows "\<exists>m'. writeWord m a v = Inr m' \<and> readWord m' a = Inr v
           \<and> unat (mem m' ! nat a) = unat v div 256
           \<and> unat (mem m' ! nat (a + 1)) = unat v mod 256"
proof -
  from assms(2,3) obtain m' where w: "writeWord m a v = Inr m'"
    by (auto simp: writeWord_def MEM_SIZE_def)
  from assms(1) w have r: "readWord m' a = Inr v"
    by (rule readWord_writeWord_same)
  from assms w have "mem m' ! nat a = word_of_int (drop_bit 8 (uint v) AND 0xFF)"
    and "mem m' ! nat (a + 1) = word_of_int (uint v AND 0xFF)"
    by (auto dest!: writeWord_mem simp: Memory_ok_def MEM_SIZE_def nat_add_distrib)
  with w r show ?thesis
    by (simp add: high_byte low_byte)
qed

theorem writeWord_readWord_roundtrip_witness:
  "Memory_ok Memory_init \<and>
   (\<exists>m'. writeWord Memory_init 4094 0xABCD = Inr m' \<and> readWord m' 4094 = Inr 0xABCD
      \<and> unat (mem m' ! 4094) = 0xAB \<and> unat (mem m' ! 4095) = 0xCD)"
  using writeWord_readWord_roundtrip [OF Memory_init_ok, of 4094 "0xABCD"] Memory_init_ok
  by simp

text \<open>
  Claim C3. \<open>readWord(a)\<close> and \<open>writeWord(a, v)\<close> fail with \<open>OutOfRange\<close> exactly
  when \<open>a < 0\<close> or \<open>a > size - 2\<close>, where \<open>size - 2 = 4094\<close>; exactly for \<open>a\<close> in
  \<open>[0, 4094]\<close> they succeed.
\<close>

theorem word_access_OutOfRange_iff:
  "(readWord m a = Inl OutOfRange) = (a < 0 \<or> a > MEM_SIZE - 2)
   \<and> (writeWord m a v = Inl OutOfRange) = (a < 0 \<or> a > MEM_SIZE - 2)
   \<and> (\<exists>w. readWord m a = Inr w) = (0 \<le> a \<and> a \<le> 4094)
   \<and> (\<exists>m'. writeWord m a v = Inr m') = (0 \<le> a \<and> a \<le> 4094)
   \<and> MEM_SIZE - 2 = 4094"
  by (auto simp: readWord_def writeWord_def MEM_SIZE_def)

section \<open>The fetch/execute engine\<close>

lemma decode_opcode_word: "decode_opcode i = drop_bit 12 i"
  unfolding decode_opcode_def mask4_int
  by (rule bit_word_eqI) (auto simp: bit_simps dest: bit_imp_le_length)

lemma decode_operand_word: "decode_operand i = take_bit 12 i"
  unfolding decode_operand_def mask12_int
  by (rule bit_word_eqI) (auto simp: bit_simps)

lemma decode_opcode_and: "decode_opcode i = drop_bit 12 i AND 0xF"
proof -
  have m: "(0xF::uint16_t) = mask 4"
    by (simp add: mask_eq_exp_minus_1)
  show ?thesis
    unfolding decode_opcode_def mask4_int m
    by (rule bit_word_eqI) (auto simp: bit_simps)
qed

lemma decode_operand_and: "decode_operand i = i AND 0xFFF"
proof -
  have m: "(0xFFF::uint16_t) = mask 12"
    by (simp add: mask_eq_exp_minus_1)
  show ?thesis
    unfolding decode_operand_def mask12_int m
    by (rule bit_word_eqI) (auto simp: bit_simps)
qed

lemma unat_decode_opcode: "unat (decode_opcode i) = unat i div 4096"
  by (simp add: decode_opcode_word drop_bit_eq_div unat_div)

lemma unat_decode_operand: "unat (decode_operand i) = unat i mod 4096"
  by (simp add: decode_operand_word take_bit_eq_mod unat_mod)

lemma uint_decode_operand: "uint (decode_operand i) = int (unat i mod 4096)"
  by (simp add: unat_decode_operand [symmetric])

lemma decode_operand_of_nat: "decode_operand i = of_nat (unat i mod 4096)"
  by (simp add: unat_decode_operand [symmetric])

lemma decode_opcode_eq_iff: "(decode_opcode i = of_nat k) = (unat i div 4096 = k)" if "k < 16"
proof -
  have "(decode_opcode i = of_nat k) = (unat (decode_opcode i) = unat (of_nat k :: uint16_t))"
    by (simp add: word_unat_eq_iff)
  also have "unat (of_nat k :: uint16_t) = k"
    using that by (simp add: unat_of_nat)
  finally show ?thesis by (simp add: unat_decode_opcode)
qed

lemma opcode_lt_16: "unat (i :: uint16_t) div 4096 < 16"
proof -
  have "unat i < 65536"
    using unsigned_less [of i, where ?'a = nat] by simp
  then show ?thesis by simp
qed

lemma Register_write_eq: "Register_write r v = \<lparr> reg_value = v \<rparr>"
  by (simp add: Register_write_def)

lemma execute_cases:
  "execute c =
     (let opcode = unat (Register_read (IR c)) div 4096;
          operand = unat (Register_read (IR c)) mod 4096;
          ac = Register_read (AC c)
      in if opcode = 0 then
           (case readWord (memory c) (int operand) of
              Inl e \<Rightarrow> (Some e, c)
            | Inr w \<Rightarrow> (None, c\<lparr> AC := \<lparr> reg_value = w \<rparr> \<rparr>))
         else if opcode = 1 then
           (case writeWord (memory c) (int operand) ac of
              Inl e \<Rightarrow> (Some e, c)
            | Inr m \<Rightarrow> (None, c\<lparr> memory := m \<rparr>))
         else if opcode = 2 then (None, c\<lparr> AC := \<lparr> reg_value = ALU_add ac (of_nat operand) \<rparr> \<rparr>)
         else if opcode = 3 then (None, c\<lparr> AC := \<lparr> reg_value = ALU_mul ac (of_nat operand) \<rparr> \<rparr>)
         else if opcode = 4 then
           (case ALU_div ac (of_nat operand) of
              Inl e \<Rightarrow> (Some e, c)
            | Inr q \<Rightarrow> (None, c\<lparr> AC := \<lparr> reg_value = q \<rparr> \<rparr>))
         else if opcode = 5 then
           (case ALU_mod ac (of_nat operand) of
              Inl e \<Rightarrow> (Some e, c)
            | Inr r \<Rightarrow> (None, c\<lparr> AC := \<lparr> reg_value = r \<rparr> \<rparr>))
         else if opcode = 15 then (None, c\<lparr> AC := \<lparr> reg_value = of_nat operand \<rparr> \<rparr>)
         else (Some UnknownOpcode, c))"
proof -
  have eqs: "\<And>i. (decode_opcode i = 0xF) = (unat i div 4096 = 15)"
    "\<And>i. (decode_opcode i = 0x0) = (unat i div 4096 = 0)"
    "\<And>i. (decode_opcode i = 0x1) = (unat i div 4096 = 1)"
    "\<And>i. (decode_opcode i = 0x2) = (unat i div 4096 = 2)"
    "\<And>i. (decode_opcode i = 0x3) = (unat i div 4096 = 3)"
    "\<And>i. (decode_opcode i = 0x4) = (unat i div 4096 = 4)"
    "\<And>i. (decode_opcode i = 0x5) = (unat i div 4096 = 5)"
    using decode_opcode_eq_iff [of 15] decode_opcode_eq_iff [of 0] decode_opcode_eq_iff [of 1]
      decode_opcode_eq_iff [of 2] decode_opcode_eq_iff [of 3] decode_opcode_eq_iff [of 4]
      decode_opcode_eq_iff [of 5]
    by simp_all
  show ?thesis
    unfolding execute_def Let_def eqs uint_decode_operand Register_write_eq
    by (simp add: decode_operand_of_nat)
qed

lemma execute_failure_state: "execute c = (Some e, c') \<Longrightarrow> c' = c"
  by (auto simp: execute_def Let_def split: if_splits sum.splits)

lemma execute_PC_IR: "execute c = (r, c') \<Longrightarrow> PC c' = PC c \<and> IR c' = IR c"
  by (auto simp: execute_def Let_def split: if_splits sum.splits)

lemma readWord_error: "readWord m a = Inl e \<Longrightarrow> e = OutOfRange"
  by (auto simp: readWord_def split: if_splits)

lemma writeWord_error: "writeWord m a v = Inl e \<Longrightarrow> e = OutOfRange"
  by (auto simp: writeWord_def split: if_splits)

lemma uint_le_unat: "(uint (p :: uint16_t) \<le> 4094) = (unat p \<le> 4094)"
proof -
  have "(uint p \<le> 4094) = (p \<le> 4094)"
    by (simp add: word_le_def)
  also have "\<dots> = (unat p \<le> 4094)"
    by (simp add: word_le_nat_alt)
  finally show ?thesis .
qed

lemma readWord_at_word: "isl (readWord m (uint (p :: uint16_t))) = (4094 < unat p)"
  using uint_le_unat [of p] by (auto simp: readWord_def MEM_SIZE_def)

lemma fetch_success:
  assumes "readWord (memory c) (uint (Register_read (PC c))) = Inr w"
  shows "fetch c = (None, c\<lparr> IR := \<lparr> reg_value = w \<rparr>,
                             PC := \<lparr> reg_value = Register_read (PC c) + 2 \<rparr> \<rparr>)"
    and "unat (Register_read (PC c)) \<le> 4094"
proof -
  from assms show "fetch c = (None, c\<lparr> IR := \<lparr> reg_value = w \<rparr>,
                             PC := \<lparr> reg_value = Register_read (PC c) + 2 \<rparr> \<rparr>)"
    by (simp add: fetch_def Let_def Register_write_eq)
  from assms readWord_at_word [of "memory c" "Register_read (PC c)"]
  show "unat (Register_read (PC c)) \<le> 4094"
    by simp
qed

lemma fetch_failure:
  assumes "readWord (memory c) (uint (Register_read (PC c))) = Inl e"
  shows "fetch c = (Some OutOfRange, c)"
  using assms readWord_error [OF assms] by (simp add: fetch_def Let_def)

lemma unat_plus_2: "unat (p :: uint16_t) \<le> 4094 \<Longrightarrow> unat (p + 2) = unat p + 2"
  by (simp add: unat_word_ariths)

text \<open>A successful pass advances \<open>PC\<close> by 2 from an address of at most 4094.\<close>

lemma cycle_PC:
  assumes "cycle c = (None, c1)"
  shows "unat (Register_read (PC c)) \<le> 4094"
    and "unat (Register_read (PC c1)) = unat (Register_read (PC c)) + 2"
proof -
  from assms obtain w where r: "readWord (memory c) (uint (Register_read (PC c))) = Inr w"
    by (cases "readWord (memory c) (uint (Register_read (PC c)))")
       (auto simp: cycle_def fetch_def Let_def)
  from fetch_success [OF r] show le: "unat (Register_read (PC c)) \<le> 4094"
    by simp
  from fetch_success(1) [OF r] assms
  have "execute (c\<lparr> IR := \<lparr> reg_value = w \<rparr>,
                    PC := \<lparr> reg_value = Register_read (PC c) + 2 \<rparr> \<rparr>) = (None, c1)"
    by (simp add: cycle_def)
  from execute_PC_IR [OF this] have "Register_read (PC c1) = Register_read (PC c) + 2"
    by (simp add: Register_read_def)
  with le show "unat (Register_read (PC c1)) = unat (Register_read (PC c)) + 2"
    by (simp add: unat_plus_2)
qed

termination run
proof (relation "measure (\<lambda>c. 4096 - unat (Register_read (PC c)))")
  show "wf (measure (\<lambda>c. 4096 - unat (Register_read (PC c))))"
    by simp
next
  fix c :: CPU and x1 c1
  assume "(x1, c1) = cycle c" and "x1 = None"
  then have "cycle c = (None, c1)" by simp
  from cycle_PC [OF this]
  show "(c1, c) \<in> measure (\<lambda>c. 4096 - unat (Register_read (PC c)))"
    by simp
qed

declare run.simps [simp del]

text \<open>The loop of \<open>run\<close> goes through the states of its first successful passes.\<close>

lemma run_cycles: "cycles n c = (None, c') \<Longrightarrow> run c = run c'"
proof (induction n arbitrary: c)
  case 0
  then show ?case by simp
next
  case (Suc n)
  then obtain c1 where c1: "cycle c = (None, c1)" and rest: "cycles n c1 = (None, c')"
    by (auto split: prod.splits option.splits)
  from c1 have "run c = run c1"
    by (subst run.simps) simp
  with Suc.IH [OF rest] show ?case by simp
qed

text \<open>The invariant of the memory holds throughout a run.\<close>

lemma fetch_memory: "fetch c = (r, c') \<Longrightarrow> memory c' = memory c"
  by (auto simp: fetch_def Let_def split: sum.splits)

lemma execute_Memory_ok:
  "Memory_ok (memory c) \<Longrightarrow> execute c = (r, c') \<Longrightarrow> Memory_ok (memory c')"
  by (auto simp: execute_def Let_def split: if_splits sum.splits dest: writeWord_ok)

lemma cycle_Memory_ok:
  assumes "Memory_ok (memory c)" and "cycle c = (r, c')"
  shows "Memory_ok (memory c')"
proof -
  obtain r1 c1 where f: "fetch c = (r1, c1)"
    by (cases "fetch c")
  with assms(1) have ok: "Memory_ok (memory c1)"
    by (simp add: fetch_memory [OF f])
  show ?thesis
  proof (cases r1)
    case None
    with f assms(2) have "execute c1 = (r, c')"
      by (simp add: cycle_def)
    with ok show ?thesis by (rule execute_Memory_ok)
  next
    case (Some e)
    with f assms(2) ok show ?thesis
      by (simp add: cycle_def)
  qed
qed

lemma cycles_Memory_ok:
  "Memory_ok (memory c) \<Longrightarrow> cycles n c = (r, c') \<Longrightarrow> Memory_ok (memory c')"
proof (induction n arbitrary: c)
  case 0
  then show ?case by simp
next
  case (Suc n)
  obtain r1 c1 where c1: "cycle c = (r1, c1)"
    by (cases "cycle c")
  with Suc.prems(1) have ok: "Memory_ok (memory c1)"
    by (auto dest: cycle_Memory_ok)
  show ?case
  proof (cases r1)
    case None
    with c1 Suc.prems(2) have "cycles n c1 = (r, c')" by simp
    with ok show ?thesis by (rule Suc.IH)
  next
    case (Some e)
    with c1 Suc.prems(2) ok show ?thesis by simp
  qed
qed

text \<open>
  Claim C4. A successful \<open>fetch\<close> puts the word at address \<open>PC\<close> into \<open>IR\<close> and
  sets \<open>PC\<close> to that address plus 2 (without wrapping: the address is at most
  4094), leaving \<open>AC\<close> and the memory as they were. When \<open>readWord\<close> fails, the
  failure is \<open>OutOfRange\<close>, \<open>fetch\<close> fails with it and leaves the whole machine,
  so \<open>IR\<close> and \<open>PC\<close> too, as it was. It fails exactly when \<open>PC\<close> exceeds 4094.
\<close>

theorem fetch_correct:
  "(\<forall>w. readWord (memory c) (uint (Register_read (PC c))) = Inr w \<longrightarrow>
      (\<exists>c'. fetch c = (None, c') \<and> Register_read (IR c') = w
         \<and> Register_read (PC c') = Register_read (PC c) + 2
         \<and> unat (Register_read (PC c')) = unat (Register_read (PC c)) + 2
         \<and> AC c' = AC c \<and> memory c' = memory c))
   \<and> (\<forall>e. readWord (memory c) (uint (Register_read (PC c))) = Inl e \<longrightarrow>
         e = OutOfRange \<and> fetch c = (Some OutOfRange, c))
   \<and> (fst (fetch c) = Some OutOfRange) = (4094 < unat (Register_read (PC c)))
   \<and> (fst (fetch c) = None) = (unat (Register_read (PC c)) \<le> 4094)"
proof (intro conjI allI impI)
  fix w
  assume r: "readWord (memory c) (uint (Register_read (PC c))) = Inr w"
  from fetch_success [OF r] unat_plus_2 [of "Register_read (PC c)"]
  show "\<exists>c'. fetch c = (None, c') \<and> Register_read (IR c') = w
         \<and> Register_read (PC c') = Register_read (PC c) + 2
         \<and> unat (Register_read (PC c')) = unat (Register_read (PC c)) + 2
         \<and> AC c' = AC c \<and> memory c' = memory c"
    by (simp add: Register_read_def)
next
  fix e
  assume r: "readWord (memory c) (uint (Register_read (PC c))) = Inl e"
  then show "e = OutOfRange" by (rule readWord_error)
  from r show "fetch c = (Some OutOfRange, c)" by (rule fetch_failure)
next
  show "(fst (fetch c) = Some OutOfRange) = (4094 < unat (Register_read (PC c)))"
    using readWord_at_word [of "memory c" "Register_read (PC c)"]
    by (auto simp: fetch_def Let_def split: sum.splits dest: readWord_error)
  show "(fst (fetch c) = None) = (unat (Register_read (PC c)) \<le> 4094)"
    using readWord_at_word [of "memory c" "Register_read (PC c)"]
    by (auto simp: fetch_def Let_def split: sum.splits)
qed

theorem fetch_correct_witness:
  "(\<exists>c'. fetch (CPU_init Memory_init) = (None, c') \<and> Register_read (IR c') = 0
      \<and> Register_read (PC c') = 2 \<and> AC c' = Register_init \<and> memory c' = Memory_init)
   \<and> fetch ((CPU_init Memory_init)\<lparr> PC := \<lparr> reg_value = 4095 \<rparr> \<rparr>)
       = (Some OutOfRange, (CPU_init Memory_init)\<lparr> PC := \<lparr> reg_value = 4095 \<rparr> \<rparr>)"
proof -
  have r0: "readWord (memory (CPU_init Memory_init))
              (uint (Register_read (PC (CPU_init Memory_init)))) = Inr 0"
    by (simp add: CPU_init_def Register_init_def Register_read_def readWord_def MEM_SIZE_def
          Memory_init_def)
  have r1: "readWord (memory ((CPU_init Memory_init)\<lparr> PC := \<lparr> reg_value = 4095 \<rparr> \<rparr>))
              (uint (Register_read (PC ((CPU_init Memory_init)\<lparr> PC := \<lparr> reg_value = 4095 \<rparr> \<rparr>))))
            = Inl OutOfRange"
    by (simp add: CPU_init_def Register_read_def readWord_def MEM_SIZE_def)
  from fetch_correct [of "CPU_init Memory_init"] r0
    fetch_correct [of "(CPU_init Memory_init)\<lparr> PC := \<lparr> reg_value = 4095 \<rparr> \<rparr>"] r1
  show ?thesis
    by (auto simp: CPU_init_def Register_init_def Register_read_def)
qed

text \<open>
  Claim C1. \<open>execute\<close> decodes \<open>opcode = (IR >> 12) & 0xF\<close> and
  \<open>operand = IR & 0xFFF\<close>, that is, the instruction word divided by 4096 and its
  remainder, and acts by the table: 0 loads \<open>AC\<close> from the word at \<open>operand\<close>, 1
  stores \<open>AC\<close> there, 2 to 5 put \<open>add\<close>, \<open>mul\<close>, \<open>div\<close>, \<open>mod\<close> of \<open>AC\<close> and
  \<open>operand\<close> into \<open>AC\<close>, 15 puts \<open>operand\<close> into \<open>AC\<close>, and every other opcode
  fails with \<open>UnknownOpcode\<close>, which happens for the opcodes 6 to 14 and no other.
\<close>

theorem execute_dispatch:
  "decode_opcode (Register_read (IR c)) = drop_bit 12 (Register_read (IR c)) AND 0xF
   \<and> decode_operand (Register_read (IR c)) = Register_read (IR c) AND 0xFFF
   \<and> unat (decode_opcode (Register_read (IR c))) = unat (Register_read (IR c)) div 4096
   \<and> unat (decode_operand (Register_read (IR c))) = unat (Register_read (IR c)) mod 4096
   \<and> execute c =
     (let opcode = unat (decode_opcode (Register_read (IR c)));
          operand = decode_operand (Register_read (IR c));
          ac = Register_read (AC c)
      in if opcode = 0 then
           (case readWord (memory c) (uint operand) of
              Inl e \<Rightarrow> (Some e, c)
            | Inr w \<Rightarrow> (None, c\<lparr> AC := \<lparr> reg_value = w \<rparr> \<rparr>))
         else if opcode = 1 then
           (case writeWord (memory c) (uint operand) ac of
              Inl e \<Rightarrow> (Some e, c)
            | Inr m \<Rightarrow> (None, c\<lparr> memory := m \<rparr>))
         else if opcode = 2 then (None, c\<lparr> AC := \<lparr> reg_value = ALU_add ac operand \<rparr> \<rparr>)
         else if opcode = 3 then (None, c\<lparr> AC := \<lparr> reg_value = ALU_mul ac operand \<rparr> \<rparr>)
         else if opcode = 4 then
           (case ALU_div ac operand of
              Inl e \<Rightarrow> (Some e, c)
            | Inr q \<Rightarrow> (None, c\<lparr> AC := \<lparr> reg_value = q \<rparr> \<rparr>))
         else if opcode = 5 then
           (case ALU_mod ac operand of
              Inl e \<Rightarrow> (Some e, c)
            | Inr r \<Rightarrow> (None, c\<lparr> AC := \<lparr> reg_value = r \<rparr> \<rparr>))
         else if opcode = 15 then (None, c\<lparr> AC := \<lparr> reg_value = operand \<rparr> \<rparr>)
         else (Some UnknownOpcode, c))
   \<and> (fst (execute c) = Some UnknownOpcode)
       = (6 \<le> unat (decode_opcode (Register_read (IR c)))
          \<and> unat (decode_opcode (Register_read (IR c))) \<le> 14)"
proof -
  have lt: "unat (Register_read (IR c)) div 4096 < 16"
    by (rule opcode_lt_16)
  have ex: "execute c = (let opcode = unat (decode_opcode (Register_read (IR c)));
          operand = decode_operand (Register_read (IR c));
          ac = Register_read (AC c)
      in if opcode = 0 then
           (case readWord (memory c) (uint operand) of
              Inl e \<Rightarrow> (Some e, c)
            | Inr w \<Rightarrow> (None, c\<lparr> AC := \<lparr> reg_value = w \<rparr> \<rparr>))
         else if opcode = 1 then
           (case writeWord (memory c) (uint operand) ac of
              Inl e \<Rightarrow> (Some e, c)
            | Inr m \<Rightarrow> (None, c\<lparr> memory := m \<rparr>))
         else if opcode = 2 then (None, c\<lparr> AC := \<lparr> reg_value = ALU_add ac operand \<rparr> \<rparr>)
         else if opcode = 3 then (None, c\<lparr> AC := \<lparr> reg_value = ALU_mul ac operand \<rparr> \<rparr>)
         else if opcode = 4 then
           (case ALU_div ac operand of
              Inl e \<Rightarrow> (Some e, c)
            | Inr q \<Rightarrow> (None, c\<lparr> AC := \<lparr> reg_value = q \<rparr> \<rparr>))
         else if opcode = 5 then
           (case ALU_mod ac operand of
              Inl e \<Rightarrow> (Some e, c)
            | Inr r \<Rightarrow> (None, c\<lparr> AC := \<lparr> reg_value = r \<rparr> \<rparr>))
         else if opcode = 15 then (None, c\<lparr> AC := \<lparr> reg_value = operand \<rparr> \<rparr>)
         else (Some UnknownOpcode, c))"
    unfolding execute_cases Let_def unat_decode_opcode uint_decode_operand
    by (simp add: decode_operand_of_nat)
  have unk: "(fst (execute c) = Some UnknownOpcode)
       = (6 \<le> unat (decode_opcode (Register_read (IR c)))
          \<and> unat (decode_opcode (Register_read (IR c))) \<le> 14)"
    using lt unfolding execute_cases Let_def unat_decode_opcode
    by (auto split: sum.splits dest: readWord_error writeWord_error
          simp: ALU_div_word ALU_mod_word)
  from ex unk show ?thesis
    by (simp only: decode_opcode_and [symmetric] decode_operand_and [symmetric]
          unat_decode_opcode [symmetric] unat_decode_operand [symmetric] simp_thms)
qed

lemma operand_le_4095: "unat (decode_operand i) \<le> 4095"
  by (simp add: unat_decode_operand)

text \<open>
  The products \<open>execute\<close> asks of the arithmetic unit fit the \<open>int\<close> of C++: the
  second factor is a 12-bit operand.
\<close>

lemma execute_mul_fits_int:
  "uint (ac :: uint16_t) * uint (decode_operand i) < 2 ^ 31"
proof -
  have a: "uint ac \<le> 65535"
    using uint_lt2p [of ac] by simp
  have b: "uint (decode_operand i) \<le> 4095"
    by (simp add: uint_decode_operand)
  have "uint ac * uint (decode_operand i) \<le> 65535 * 4095"
    using a b by (intro mult_mono) simp_all
  then show ?thesis by simp
qed

lemma decode_operand_zero_iff: "(decode_operand i = 0) = (unat i mod 4096 = 0)"
  by (simp add: unat_decode_operand [symmetric] unat_eq_0)

text \<open>
  Claim C7. Whenever \<open>execute\<close> fails it leaves the machine exactly as it found it:
  \<open>AC\<close>, \<open>IR\<close>, \<open>PC\<close> and the memory. It fails with \<open>DivisionByZero\<close> exactly for
  opcode 4 or 5 with operand 0, and with \<open>UnknownOpcode\<close> for the opcodes 6 to 14.
  When the failing \<open>execute\<close> follows a successful \<open>fetch\<close>, the cycle ends in the
  state the fetch produced: \<open>PC\<close> advanced by 2, \<open>AC\<close> and memory as before the
  cycle.
\<close>

theorem execute_failure_changes_nothing:
  "(\<forall>e c'. execute c = (Some e, c') \<longrightarrow> c' = c)
   \<and> ((unat (decode_opcode (Register_read (IR c))) = 4
          \<or> unat (decode_opcode (Register_read (IR c))) = 5)
        \<and> decode_operand (Register_read (IR c)) = 0
        \<longrightarrow> execute c = (Some DivisionByZero, c))
   \<and> (6 \<le> unat (decode_opcode (Register_read (IR c)))
        \<and> unat (decode_opcode (Register_read (IR c))) \<le> 14
        \<longrightarrow> execute c = (Some UnknownOpcode, c))
   \<and> (fst (execute c) = Some DivisionByZero)
       = ((unat (decode_opcode (Register_read (IR c))) = 4
            \<or> unat (decode_opcode (Register_read (IR c))) = 5)
          \<and> decode_operand (Register_read (IR c)) = 0)
   \<and> (\<forall>c0 e. fetch c0 = (None, c) \<and> fst (execute c) = Some e \<longrightarrow>
         cycle c0 = (Some e, c)
         \<and> Register_read (PC c) = Register_read (PC c0) + 2
         \<and> AC c = AC c0 \<and> memory c = memory c0)"
proof (intro conjI allI impI)
  fix e c'
  assume "execute c = (Some e, c')"
  then show "c' = c" by (rule execute_failure_state)
next
  assume "(unat (decode_opcode (Register_read (IR c))) = 4
          \<or> unat (decode_opcode (Register_read (IR c))) = 5)
        \<and> decode_operand (Register_read (IR c)) = 0"
  then show "execute c = (Some DivisionByZero, c)"
    unfolding execute_cases Let_def unat_decode_opcode decode_operand_zero_iff
    by (auto simp: ALU_div_word ALU_mod_word)
next
  assume "6 \<le> unat (decode_opcode (Register_read (IR c)))
        \<and> unat (decode_opcode (Register_read (IR c))) \<le> 14"
  then show "execute c = (Some UnknownOpcode, c)"
    unfolding execute_cases Let_def unat_decode_opcode
    by auto
next
  have z: "(word_of_nat (unat (Register_read (IR c)) mod 4096) = (0 :: uint16_t))
             = (unat (Register_read (IR c)) mod 4096 = 0)"
    using decode_operand_zero_iff [of "Register_read (IR c)"]
    by (simp only: decode_operand_of_nat)
  show "(fst (execute c) = Some DivisionByZero)
       = ((unat (decode_opcode (Register_read (IR c))) = 4
            \<or> unat (decode_opcode (Register_read (IR c))) = 5)
          \<and> decode_operand (Register_read (IR c)) = 0)"
    unfolding execute_cases Let_def unat_decode_opcode decode_operand_zero_iff
    by (auto split: sum.splits dest: readWord_error writeWord_error
          simp: ALU_div_word ALU_mod_word z)
next
  fix c0 e
  assume a: "fetch c0 = (None, c) \<and> fst (execute c) = Some e"
  then have ex: "execute c = (Some e, c)"
    using execute_failure_state [of c e "snd (execute c)"]
    by (cases "execute c") auto
  from a ex show "cycle c0 = (Some e, c)"
    by (simp add: cycle_def)
  from a show "Register_read (PC c) = Register_read (PC c0) + 2"
    by (auto simp: fetch_def Let_def Register_read_def Register_write_def split: sum.splits)
  from a show "AC c = AC c0"
    by (auto simp: fetch_def Let_def split: sum.splits)
  from a show "memory c = memory c0"
    by (auto simp: fetch_def Let_def split: sum.splits)
qed

theorem execute_failure_changes_nothing_witness:
  "execute \<lparr> PC = \<lparr> reg_value = 4 \<rparr>, IR = \<lparr> reg_value = 0x4000 \<rparr>,
             AC = \<lparr> reg_value = 0 \<rparr>, memory = Memory_init \<rparr>
     = (Some DivisionByZero,
        \<lparr> PC = \<lparr> reg_value = 4 \<rparr>, IR = \<lparr> reg_value = 0x4000 \<rparr>,
          AC = \<lparr> reg_value = 0 \<rparr>, memory = Memory_init \<rparr>)
   \<and> execute \<lparr> PC = \<lparr> reg_value = 2 \<rparr>, IR = \<lparr> reg_value = 0x6000 \<rparr>,
               AC = \<lparr> reg_value = 7 \<rparr>, memory = Memory_init \<rparr>
     = (Some UnknownOpcode,
        \<lparr> PC = \<lparr> reg_value = 2 \<rparr>, IR = \<lparr> reg_value = 0x6000 \<rparr>,
          AC = \<lparr> reg_value = 7 \<rparr>, memory = Memory_init \<rparr>)
   \<and> cycle \<lparr> PC = \<lparr> reg_value = 0 \<rparr>, IR = \<lparr> reg_value = 0 \<rparr>, AC = \<lparr> reg_value = 7 \<rparr>,
             memory = Memory_init\<lparr> mem := (mem Memory_init)[0 := 0x60] \<rparr> \<rparr>
     = (Some UnknownOpcode,
        \<lparr> PC = \<lparr> reg_value = 2 \<rparr>, IR = \<lparr> reg_value = 0x6000 \<rparr>, AC = \<lparr> reg_value = 7 \<rparr>,
          memory = Memory_init\<lparr> mem := (mem Memory_init)[0 := 0x60] \<rparr> \<rparr>)"
proof -
  let ?d = "\<lparr> PC = \<lparr> reg_value = 4 \<rparr>, IR = \<lparr> reg_value = 0x4000 \<rparr>,
             AC = \<lparr> reg_value = 0 \<rparr>, memory = Memory_init \<rparr>"
  let ?u = "\<lparr> PC = \<lparr> reg_value = 2 \<rparr>, IR = \<lparr> reg_value = 0x6000 \<rparr>,
             AC = \<lparr> reg_value = 7 \<rparr>, memory = Memory_init \<rparr>"
  let ?m = "Memory_init\<lparr> mem := (mem Memory_init)[0 := 0x60] \<rparr>"
  let ?b = "\<lparr> PC = \<lparr> reg_value = 0 \<rparr>, IR = \<lparr> reg_value = 0 \<rparr>, AC = \<lparr> reg_value = 7 \<rparr>,
              memory = ?m \<rparr>"
  let ?a = "\<lparr> PC = \<lparr> reg_value = 2 \<rparr>, IR = \<lparr> reg_value = 0x6000 \<rparr>,
             AC = \<lparr> reg_value = 7 \<rparr>, memory = ?m \<rparr>"
  have d: "unat (decode_opcode (Register_read (IR ?d))) = 4"
    "decode_operand (Register_read (IR ?d)) = 0"
    by (simp_all add: Register_read_def decode_opcode_word decode_operand_word)
  have u: "unat (decode_opcode (Register_read (IR ?u))) = 6"
    by (simp add: Register_read_def decode_opcode_word)
  have f: "fetch ?b = (None, ?a)"
    by (simp add: fetch_def Let_def Register_read_def Register_write_def readWord_def
          MEM_SIZE_def Memory_init_def)
  have uc: "unat (decode_opcode (Register_read (IR ?a))) = 6"
    by (simp add: Register_read_def decode_opcode_word)
  have e: "fst (execute ?a) = Some UnknownOpcode"
    using execute_failure_changes_nothing [of ?a] uc by simp
  show ?thesis
    using execute_failure_changes_nothing [of ?d] d
      execute_failure_changes_nothing [of ?u] u
      execute_failure_changes_nothing [of ?a] f e
    by simp
qed

text \<open>
  Claim C10. The operand 4095 decodes but is no word address: with it, \<open>LDA\<close>
  (opcode 0) and \<open>STA\<close> (opcode 1) fail with \<open>OutOfRange\<close>, the last word address
  being 4094. For these two opcodes \<open>execute\<close> fails exactly when the operand is
  4095, so with an operand of at most 4094 it cannot fail.
\<close>

theorem LDA_STA_operand_4095:
  "(unat (decode_opcode (Register_read (IR c))) = 0
      \<or> unat (decode_opcode (Register_read (IR c))) = 1 \<longrightarrow>
      (unat (decode_operand (Register_read (IR c))) = 4095
         \<longrightarrow> execute c = (Some OutOfRange, c))
      \<and> (unat (decode_operand (Register_read (IR c))) \<le> 4094
         \<longrightarrow> fst (execute c) = None)
      \<and> (fst (execute c) \<noteq> None)
          = (unat (decode_operand (Register_read (IR c))) = 4095))
   \<and> unat (decode_operand (Register_read (IR c))) \<le> 4095
   \<and> readWord (memory c) 4095 = Inl OutOfRange
   \<and> writeWord (memory c) 4095 (Register_read (AC c)) = Inl OutOfRange
   \<and> (\<exists>w. readWord (memory c) 4094 = Inr w)
   \<and> (\<exists>m'. writeWord (memory c) 4094 (Register_read (AC c)) = Inr m')"
proof -
  define n where "n = unat (Register_read (IR c)) mod 4096"
  define k where "k = unat (Register_read (IR c)) div 4096"
  have le: "n \<le> 4095"
    by (simp add: n_def)
  have rd: "(\<exists>e. readWord (memory c) (int n) = Inl e) = (n = 4095)"
    using le by (auto simp: readWord_def MEM_SIZE_def)
  have wr: "(\<exists>e. writeWord (memory c) (int n) (Register_read (AC c)) = Inl e) = (n = 4095)"
    using le by (auto simp: writeWord_def MEM_SIZE_def)
  have ex: "execute c =
      (if k = 0 then
         (case readWord (memory c) (int n) of
            Inl e \<Rightarrow> (Some e, c)
          | Inr w \<Rightarrow> (None, c\<lparr> AC := \<lparr> reg_value = w \<rparr> \<rparr>))
       else if k = 1 then
         (case writeWord (memory c) (int n) (Register_read (AC c)) of
            Inl e \<Rightarrow> (Some e, c)
          | Inr m \<Rightarrow> (None, c\<lparr> memory := m \<rparr>))
       else execute c)"
    unfolding n_def k_def by (simp add: execute_cases Let_def)
  have ex0: "k = 0 \<Longrightarrow> execute c =
      (case readWord (memory c) (int n) of
         Inl e \<Rightarrow> (Some e, c)
       | Inr w \<Rightarrow> (None, c\<lparr> AC := \<lparr> reg_value = w \<rparr> \<rparr>))"
    using ex by simp
  have ex1: "k = 1 \<Longrightarrow> execute c =
      (case writeWord (memory c) (int n) (Register_read (AC c)) of
         Inl e \<Rightarrow> (Some e, c)
       | Inr m \<Rightarrow> (None, c\<lparr> memory := m \<rparr>))"
    using ex by simp
  have main: "k = 0 \<or> k = 1 \<Longrightarrow>
      (n = 4095 \<longrightarrow> execute c = (Some OutOfRange, c))
      \<and> (n \<le> 4094 \<longrightarrow> fst (execute c) = None)
      \<and> (fst (execute c) \<noteq> None) = (n = 4095)"
    using rd wr
    by (auto simp: ex0 ex1 split: sum.splits dest: readWord_error writeWord_error)
  from main show ?thesis
    unfolding unat_decode_opcode unat_decode_operand n_def [symmetric] k_def [symmetric]
    using le by (simp add: readWord_def writeWord_def MEM_SIZE_def)
qed

theorem LDA_STA_operand_4095_witness:
  "execute \<lparr> PC = \<lparr> reg_value = 2 \<rparr>, IR = \<lparr> reg_value = 0x0FFF \<rparr>,
             AC = \<lparr> reg_value = 7 \<rparr>, memory = Memory_init \<rparr>
     = (Some OutOfRange,
        \<lparr> PC = \<lparr> reg_value = 2 \<rparr>, IR = \<lparr> reg_value = 0x0FFF \<rparr>,
          AC = \<lparr> reg_value = 7 \<rparr>, memory = Memory_init \<rparr>)
   \<and> execute \<lparr> PC = \<lparr> reg_value = 2 \<rparr>, IR = \<lparr> reg_value = 0x1FFF \<rparr>,
               AC = \<lparr> reg_value = 7 \<rparr>, memory = Memory_init \<rparr>
     = (Some OutOfRange,
        \<lparr> PC = \<lparr> reg_value = 2 \<rparr>, IR = \<lparr> reg_value = 0x1FFF \<rparr>,
          AC = \<lparr> reg_value = 7 \<rparr>, memory = Memory_init \<rparr>)
   \<and> fst (execute \<lparr> PC = \<lparr> reg_value = 2 \<rparr>, IR = \<lparr> reg_value = 0x1FFE \<rparr>,
                    AC = \<lparr> reg_value = 7 \<rparr>, memory = Memory_init \<rparr>) = None"
proof -
  let ?l = "\<lparr> PC = \<lparr> reg_value = 2 \<rparr>, IR = \<lparr> reg_value = 0x0FFF \<rparr>,
             AC = \<lparr> reg_value = 7 \<rparr>, memory = Memory_init \<rparr>"
  let ?s = "\<lparr> PC = \<lparr> reg_value = 2 \<rparr>, IR = \<lparr> reg_value = 0x1FFF \<rparr>,
             AC = \<lparr> reg_value = 7 \<rparr>, memory = Memory_init \<rparr>"
  let ?t = "\<lparr> PC = \<lparr> reg_value = 2 \<rparr>, IR = \<lparr> reg_value = 0x1FFE \<rparr>,
             AC = \<lparr> reg_value = 7 \<rparr>, memory = Memory_init \<rparr>"
  have l: "unat (decode_opcode (Register_read (IR ?l))) = 0"
    "unat (decode_operand (Register_read (IR ?l))) = 4095"
    by (simp_all add: Register_read_def unat_decode_opcode unat_decode_operand)
  have s: "unat (decode_opcode (Register_read (IR ?s))) = 1"
    "unat (decode_operand (Register_read (IR ?s))) = 4095"
    by (simp_all add: Register_read_def unat_decode_opcode unat_decode_operand)
  have t: "unat (decode_opcode (Register_read (IR ?t))) = 1"
    "unat (decode_operand (Register_read (IR ?t))) = 4094"
    by (simp_all add: Register_read_def unat_decode_opcode unat_decode_operand)
  show ?thesis
    using LDA_STA_operand_4095 [of ?l] l LDA_STA_operand_4095 [of ?s] s
      LDA_STA_operand_4095 [of ?t] t
    by simp
qed

section \<open>The loader\<close>

lemma loadLoop_lines: "loadLoop m a s = load_lines m a (lines_of s)"
proof (induction m a s rule: loadLoop.induct)
  case (1 m address s)
  show ?case
    by (subst loadLoop.simps, subst lines_of.simps)
       (auto split: option.splits sum.splits simp: 1)
qed

lemma split_at_first:
  "x \<notin> set l \<Longrightarrow>
   takeWhile (\<lambda>ch. ch \<noteq> x) (l @ x # rest) = l
   \<and> dropWhile (\<lambda>ch. ch \<noteq> x) (l @ x # rest) = x # rest"
  by (induction l) auto

lemma getline_line: "newline \<notin> set l \<Longrightarrow> getline (l @ newline # rest) = Some (l, rest)"
  by (simp add: getline_def split_at_first)

lemma lines_of_Nil: "lines_of [] = []"
  by (subst lines_of.simps) (simp add: getline_def)

lemma lines_of_text_append:
  "\<forall>l \<in> set ls. newline \<notin> set l \<Longrightarrow> lines_of (text_of_lines ls @ rest) = ls @ lines_of rest"
proof (induction ls)
  case Nil
  then show ?case by (simp add: text_of_lines_def)
next
  case (Cons l ls)
  then have "lines_of (text_of_lines ls @ rest) = ls @ lines_of rest"
    and nl: "newline \<notin> set l"
    by simp_all
  then show ?case
    by (subst lines_of.simps) (simp add: text_of_lines_def getline_line [OF nl])
qed

lemma lines_of_text: "\<forall>l \<in> set ls. newline \<notin> set l \<Longrightarrow> lines_of (text_of_lines ls) = ls"
  using lines_of_text_append [of ls "[]"] by (simp add: lines_of_Nil)

text \<open>The digits of the specification are the digits \<open>std::stoi\<close> accepts, with the same values.\<close>

lemma spec_digit_sound:
  "spec_digit ch = Some d \<Longrightarrow> isxdigit ch \<and> digit_value ch = int d \<and> \<not> isspace ch
     \<and> ch \<noteq> CHR ''-'' \<and> ch \<noteq> CHR ''+'' \<and> ch \<noteq> CHR ''x'' \<and> ch \<noteq> CHR ''X''"
  by (auto simp: spec_digit_def isxdigit_def digit_value_def isspace_def split: if_splits)

lemma spec_hex_sound:
  "spec_hex acc h = Some v \<Longrightarrow>
   list_all isxdigit h \<and> foldl (\<lambda>acc ch. 16 * acc + digit_value ch) (int acc) h = int v"
proof (induction h arbitrary: acc)
  case Nil
  then show ?case by simp
next
  case (Cons ch cs)
  from Cons.prems obtain d where d: "spec_digit ch = Some d"
    and r: "spec_hex (16 * acc + d) cs = Some v"
    by (auto split: option.splits)
  from Cons.IH [OF r] spec_digit_sound [OF d] show ?case
    by simp
qed

lemma stoi16_spec_operand:
  assumes "spec_operand h = Some v"
  shows "stoi16 h = Inr (int v)" and "v < 4096"
proof -
  from assms obtain ch cs where h: "h = ch # cs"
    by (cases h) (auto simp: spec_operand_def)
  from assms have hx: "spec_hex 0 h = Some v" and v: "v < 4096"
    by (auto simp: spec_operand_def split: if_splits option.splits)
  from hx h obtain d where d: "spec_digit ch = Some d"
    by (auto split: option.splits)
  from spec_hex_sound [OF hx] have all: "list_all isxdigit h"
    and val: "hex_value h = int v"
    by (simp_all add: hex_value_def)
  from all have tw: "takeWhile isxdigit h = h"
    by (simp add: list_all_iff)
  have nox: "cs \<noteq> [] \<Longrightarrow> cs ! 0 \<noteq> CHR ''x'' \<and> cs ! 0 \<noteq> CHR ''X''"
  proof -
    assume "cs \<noteq> []"
    then obtain c2 cs2 where cs: "cs = c2 # cs2" by (cases cs) auto
    with all h have "isxdigit c2" by simp
    then have "c2 \<noteq> CHR ''x'' \<and> c2 \<noteq> CHR ''X''"
      by (auto simp: isxdigit_def)
    with cs show ?thesis by simp
  qed
  from spec_digit_sound [OF d] have c: "\<not> isspace ch" "ch \<noteq> CHR ''-''" "ch \<noteq> CHR ''+''"
    by simp_all
  from c h have s1: "dropWhile isspace h = h"
    by simp
  from c h have s2: "(if h \<noteq> [] \<and> (hd h = CHR ''-'' \<or> hd h = CHR ''+'') then tl h else h) = h"
    by simp
  from c h have neg: "(h \<noteq> [] \<and> hd h = CHR ''-'') = False"
    by simp
  have pre: "(length h \<ge> 3 \<and> h ! 0 = CHR ''0'' \<and> (h ! 1 = CHR ''x'' \<or> h ! 1 = CHR ''X'')
                \<and> isxdigit (h ! 2)) = False"
    using nox h by (cases cs) auto
  show "v < 4096" by (rule v)
  have "stoi16 h = (if h = [] then Inl InvalidArgument
         else if hex_value h < - (2 ^ 31) \<or> 2 ^ 31 - 1 < hex_value h then Inl StoiOutOfRange
         else Inr (hex_value h))"
    unfolding stoi16_def Let_def s1 s2 neg pre if_False tw ..
  with h v val show "stoi16 h = Inr (int v)"
    by simp
qed

lemma instruction_word:
  "(word_of_int (push_bit 12 (uint (a :: uint16_t)) OR uint (b :: uint16_t)) :: uint16_t)
   = push_bit 12 a OR b"
  by (rule bit_word_eqI) (auto simp: bit_simps)

text \<open>The table of the specification is the chain of comparisons of the loader.\<close>

lemma mnemonic_cases:
  "(mn, opc) \<in> set spec_mnemonics \<Longrightarrow>
     mn = ''SEA'' \<and> opc = 0xF \<or> mn = ''ADD'' \<and> opc = 0x2 \<or> mn = ''MUL'' \<and> opc = 0x3
     \<or> mn = ''DIV'' \<and> opc = 0x4 \<or> mn = ''MOD'' \<and> opc = 0x5 \<or> mn = ''STA'' \<and> opc = 0x1
     \<or> mn = ''LDA'' \<and> opc = 0x0"
  by (simp add: spec_mnemonics_def)

lemma mnemonic_props:
  assumes "(mn, opc) \<in> set spec_mnemonics"
  shows "CHR '' '' \<notin> set mn" and "opcodeBinary_of mn = opc" and "length mn = 3"
  using mnemonic_cases [OF assms]
  by (elim disjE conjE; simp add: opcodeBinary_of_def)+

lemma spec_line_assemble:
  assumes "spec_line l = Some w"
  shows "assemble l = Inr w" and "l \<noteq> []"
proof -
  from assms obtain opc v where m: "map_of spec_mnemonics (take 3 l) = Some opc"
    and len: "3 < length l" and sp: "l ! 3 = CHR '' ''"
    and opd: "spec_operand (drop 4 l) = Some v"
    and w: "w = push_bit 12 opc OR of_nat v"
    by (auto simp: spec_line_def split: option.splits if_splits)
  from len show "l \<noteq> []" by auto
  define mn where "mn = take 3 l"
  from m have "(mn, opc) \<in> set spec_mnemonics"
    unfolding mn_def by (rule map_of_SomeD)
  then have mn: "CHR '' '' \<notin> set mn \<and> opcodeBinary_of mn = opc"
    by (simp add: mnemonic_props)
  from len have lmn: "length mn = 3"
    by (simp add: mn_def)
  from len sp have l: "l = mn @ CHR '' '' # drop 4 l"
    using id_take_nth_drop [of 3 l] by (simp add: mn_def)
  have mem: "CHR '' '' \<in> set l"
    by (subst l) simp
  have tw: "takeWhile (\<lambda>ch. ch \<noteq> CHR '' '') l = mn"
    using mn by (subst l) (simp add: split_at_first)
  have fs: "find_space l = Some 3"
    by (simp add: find_space_def mem tw lmn)
  have to: "substr_to l (Some 3) = mn"
    by (simp add: substr_to_def mn_def)
  have after: "substr_after l (Some 3) = drop 4 l"
    by (simp add: substr_after_def)
  from stoi16_spec_operand(1) [OF opd] mn w show "assemble l = Inr w"
    by (simp add: assemble_def Let_def fs to after instruction_word)
qed

text \<open>
  The loader does not reduce the operand to 12 bits: a literal above \<open>0xFFF\<close> reaches
  into the opcode. \<open>LDA 1234\<close> assembles to the word of \<open>STA 234\<close>.
\<close>

lemma assemble_wide_operand: "assemble ''LDA 1234'' = Inr 0x1234"
  by (simp add: assemble_def find_space_def substr_to_def substr_after_def stoi16_def
        isspace_def isxdigit_def hex_value_def digit_value_def opcodeBinary_of_def)

text \<open>
  Loading well-formed lines from address \<open>a\<close> on, when the last of them still has
  room: every line lands at its address, nothing below \<open>a\<close> changes.
\<close>

lemma load_lines_fits:
  assumes "Memory_ok m" and "0 \<le> a"
    and "list_all (\<lambda>l. spec_line l \<noteq> None) (filter (\<lambda>l. l \<noteq> []) ls)"
    and "a + 2 * int (length (filter (\<lambda>l. l \<noteq> []) ls)) \<le> 4096"
  shows "\<exists>m'. load_lines m a ls = (None, m') \<and> Memory_ok m'
           \<and> (\<forall>j < nat a. mem m' ! j = mem m ! j)
           \<and> (\<forall>i < length (filter (\<lambda>l. l \<noteq> []) ls).
                 \<exists>w. spec_line (filter (\<lambda>l. l \<noteq> []) ls ! i) = Some w
                     \<and> readWord m' (a + 2 * int i) = Inr w)"
  using assms
proof (induction ls arbitrary: m a)
  case Nil
  then show ?case by simp
next
  case (Cons l ls)
  show ?case
  proof (cases "l = []")
    case True
    with Cons.IH [of m a] Cons.prems show ?thesis by simp
  next
    case False
    let ?nb = "filter (\<lambda>l. l \<noteq> []) ls"
    from False Cons.prems(3) obtain w where w: "spec_line l = Some w"
      and rest: "list_all (\<lambda>l. spec_line l \<noteq> None) ?nb"
      by auto
    from False Cons.prems(2,4) have a: "0 \<le> a" "a \<le> 4094"
      and fits: "a + 2 + 2 * int (length ?nb) \<le> 4096"
      by simp_all
    from a obtain m1 where m1: "writeWord m a w = Inr m1"
      by (auto simp: writeWord_def MEM_SIZE_def)
    from Cons.prems(1) m1 have ok1: "Memory_ok m1"
      by (rule writeWord_ok)
    from a have a2: "0 \<le> a + 2" by simp
    from Cons.IH [OF ok1 a2 rest fits] obtain m' where
      run: "load_lines m1 (a + 2) ls = (None, m')" and ok': "Memory_ok m'"
      and below: "\<forall>j < nat (a + 2). mem m' ! j = mem m1 ! j"
      and words: "\<forall>i < length ?nb. \<exists>w. spec_line (?nb ! i) = Some w
                     \<and> readWord m' (a + 2 + 2 * int i) = Inr w"
      by blast
    from False w m1 run have "load_lines m a (l # ls) = (None, m')"
      by (simp add: spec_line_assemble(1) [OF w])
    moreover have "\<forall>j < nat a. mem m' ! j = mem m ! j"
    proof (intro allI impI)
      fix j assume j: "j < nat a"
      with a below have "mem m' ! j = mem m1 ! j" by simp
      also from j a have "mem m1 ! j = mem m ! j"
        by (intro writeWord_other_byte [OF m1]) auto
      finally show "mem m' ! j = mem m ! j" .
    qed
    moreover have "\<forall>i < length (filter (\<lambda>l. l \<noteq> []) (l # ls)).
                 \<exists>w. spec_line (filter (\<lambda>l. l \<noteq> []) (l # ls) ! i) = Some w
                     \<and> readWord m' (a + 2 * int i) = Inr w"
    proof (intro allI impI)
      fix i assume i: "i < length (filter (\<lambda>l. l \<noteq> []) (l # ls))"
      show "\<exists>w. spec_line (filter (\<lambda>l. l \<noteq> []) (l # ls) ! i) = Some w
                     \<and> readWord m' (a + 2 * int i) = Inr w"
      proof (cases i)
        case 0
        from a below have "mem m' ! nat a = mem m1 ! nat a"
          and "mem m' ! nat (a + 1) = mem m1 ! nat (a + 1)"
          by simp_all
        then have "readWord m' a = readWord m1 a"
          by (rule readWord_cong)
        also have "readWord m1 a = Inr w"
          using Cons.prems(1) m1 by (rule readWord_writeWord_same)
        finally show ?thesis
          using False w 0 by simp
      next
        case (Suc k)
        with i False have "k < length ?nb" by simp
        with words obtain w' where "spec_line (?nb ! k) = Some w'"
          and "readWord m' (a + 2 + 2 * int k) = Inr w'"
          by blast
        with Suc False show ?thesis
          by (simp add: algebra_simps)
      qed
    qed
    ultimately show ?thesis
      using ok' by blast
  qed
qed

text \<open>When the lines do not all have room, the loop ends in \<open>OutOfRange\<close>.\<close>

lemma load_lines_overflow:
  assumes "0 \<le> a" and "a \<le> 4096"
    and "list_all (\<lambda>l. spec_line l \<noteq> None) (filter (\<lambda>l. l \<noteq> []) ls)"
    and "4096 < a + 2 * int (length (filter (\<lambda>l. l \<noteq> []) ls))"
  shows "fst (load_lines m a ls) = Some OutOfRange"
  using assms
proof (induction ls arbitrary: m a)
  case Nil
  then show ?case by simp
next
  case (Cons l ls)
  show ?case
  proof (cases "l = []")
    case True
    with Cons.IH [of a m] Cons.prems show ?thesis by simp
  next
    case False
    let ?nb = "filter (\<lambda>l. l \<noteq> []) ls"
    from False Cons.prems(3) obtain w where w: "spec_line l = Some w"
      and rest: "list_all (\<lambda>l. spec_line l \<noteq> None) ?nb"
      by auto
    show ?thesis
    proof (cases "a \<le> 4094")
      case True
      with Cons.prems(1) obtain m1 where m1: "writeWord m a w = Inr m1"
        by (auto simp: writeWord_def MEM_SIZE_def)
      from True Cons.prems(1) have "0 \<le> a + 2" "a + 2 \<le> 4096" by simp_all
      moreover from False Cons.prems(4) have "4096 < a + 2 + 2 * int (length ?nb)"
        by simp
      ultimately have "fst (load_lines m1 (a + 2) ls) = Some OutOfRange"
        using rest by (intro Cons.IH)
      with False m1 show ?thesis
        by (simp add: spec_line_assemble(1) [OF w])
    next
      case high: False
      then have "writeWord m a w = Inl OutOfRange"
        by (simp add: writeWord_def MEM_SIZE_def)
      with False show ?thesis
        by (simp add: spec_line_assemble(1) [OF w])
    qed
  qed
qed

text \<open>
  A line that holds one space is not empty, so the loader does not skip it: it has no
  digit to convert and \<open>std::stoi\<close> throws \<open>std::invalid_argument\<close>. Such a text
  is not a well-formed program.
\<close>

lemma loadProgram_space_line_fails:
  "fst (loadProgram Memory_init (Some (text_of_lines [''SEA 0005'', '' '', ''ADD 0003''])))
     = Some InvalidArgument
   \<and> \<not> spec_program (text_of_lines [''SEA 0005'', '' '', ''ADD 0003''])"
proof -
  let ?t = "text_of_lines [''SEA 0005'', '' '', ''ADD 0003'']"
  have ls: "lines_of ?t = [''SEA 0005'', '' '', ''ADD 0003'']"
    by (rule lines_of_text) (simp add: newline_def)
  have a1: "assemble ''SEA 0005'' = Inr 0xF005"
    by (simp add: assemble_def find_space_def substr_to_def substr_after_def stoi16_def
          isspace_def isxdigit_def hex_value_def digit_value_def opcodeBinary_of_def)
  have a2: "assemble '' '' = Inl InvalidArgument"
    by (simp add: assemble_def find_space_def substr_to_def substr_after_def stoi16_def
          isspace_def)
  have "fst (load_lines Memory_init 0 [''SEA 0005'', '' '', ''ADD 0003'']) = Some InvalidArgument"
    by (simp add: a1 a2 writeWord_def MEM_SIZE_def)
  then have l: "fst (loadProgram Memory_init (Some ?t)) = Some InvalidArgument"
    by (simp add: loadProgram_def loadLoop_lines ls)
  have "spec_line '' '' = None"
    by (simp add: spec_line_def spec_mnemonics_def)
  then have "\<not> spec_program ?t"
    by (simp add: spec_program_def nonempty_lines_def ls)
  with l show ?thesis by simp
qed

text \<open>
  Claim C9, as stated, for the program of 2049 lines \<open>SEA 0\<close>: every line is well
  formed, and the loader fails with \<open>OutOfRange\<close>, the 2049th instruction word having
  no address in the memory.
\<close>

theorem loadProgram_2049_lines_fails:
  "spec_program (text_of_lines (replicate 2049 ''SEA 0''))
   \<and> length (nonempty_lines (text_of_lines (replicate 2049 ''SEA 0''))) = 2049
   \<and> fst (loadProgram Memory_init (Some (text_of_lines (replicate 2049 ''SEA 0''))))
       = Some OutOfRange"
proof -
  have ls: "lines_of (text_of_lines (replicate 2049 ''SEA 0'')) = replicate 2049 ''SEA 0''"
    by (rule lines_of_text) (simp add: newline_def)
  have sl: "spec_line ''SEA 0'' = Some 0xF000"
    by (simp add: spec_line_def spec_mnemonics_def spec_operand_def spec_digit_def)
  have nb: "nonempty_lines (text_of_lines (replicate 2049 ''SEA 0'')) = replicate 2049 ''SEA 0''"
    by (simp add: nonempty_lines_def ls)
  have sp: "spec_program (text_of_lines (replicate 2049 ''SEA 0''))"
    by (simp add: spec_program_def nb list_all_iff sl)
  have "fst (load_lines Memory_init 0 (replicate 2049 ''SEA 0'')) = Some OutOfRange"
    by (rule load_lines_overflow) (simp_all add: list_all_iff sl)
  then have "fst (loadProgram Memory_init (Some (text_of_lines (replicate 2049 ''SEA 0''))))
       = Some OutOfRange"
    by (simp add: loadProgram_def loadLoop_lines ls)
  with sp nb show ?thesis by simp
qed

text \<open>
  Claim C9, amended. For every program text whose non-empty lines are each
  \<open>MNEMONIC OPERAND\<close>, with one of the seven mnemonics, one space and a hexadecimal
  literal of at most 12 bits, and which has at most 2048 non-empty lines, the loader
  succeeds and leaves at address \<open>2 * i\<close> the word \<open>(opcode << 12) | operand\<close> of the
  \<open>i\<close>-th non-empty line, the empty lines (those of length zero) being skipped. A line
  of white space is a non-empty line, and not of this form.
\<close>

theorem loadProgram_assembles:
  assumes "Memory_ok m" and "spec_program text" and "length (nonempty_lines text) \<le> 2048"
  shows "\<exists>m'. loadProgram m (Some text) = (None, m')
           \<and> (\<forall>i < length (nonempty_lines text).
                 \<exists>w. spec_line (nonempty_lines text ! i) = Some w
                     \<and> readWord m' (2 * int i) = Inr w)"
proof -
  from assms(2) have wf: "list_all (\<lambda>l. spec_line l \<noteq> None)
      (filter (\<lambda>l. l \<noteq> []) (lines_of text))"
    by (simp add: spec_program_def nonempty_lines_def)
  from assms(3) have fits: "0 + 2 * int (length (filter (\<lambda>l. l \<noteq> []) (lines_of text))) \<le> 4096"
    by (simp add: nonempty_lines_def)
  from load_lines_fits [OF assms(1) order_refl wf fits] show ?thesis
    by (auto simp: loadProgram_def loadLoop_lines nonempty_lines_def)
qed

theorem loadProgram_assembles_witness:
  "Memory_ok Memory_init
   \<and> spec_program (text_of_lines [''SEA 0005'', '''', ''ADD 0003''])
   \<and> nonempty_lines (text_of_lines [''SEA 0005'', '''', ''ADD 0003'']) = [''SEA 0005'', ''ADD 0003'']
   \<and> (\<exists>m'. loadProgram Memory_init (Some (text_of_lines [''SEA 0005'', '''', ''ADD 0003'']))
              = (None, m')
         \<and> readWord m' 0 = Inr 0xF005 \<and> readWord m' 2 = Inr 0x2003)"
proof -
  let ?t = "text_of_lines [''SEA 0005'', '''', ''ADD 0003'']"
  have ls: "lines_of ?t = [''SEA 0005'', '''', ''ADD 0003'']"
    by (rule lines_of_text) (simp add: newline_def)
  have nb: "nonempty_lines ?t = [''SEA 0005'', ''ADD 0003'']"
    by (simp add: nonempty_lines_def ls)
  have s1: "spec_line ''SEA 0005'' = Some 0xF005"
    by (simp add: spec_line_def spec_mnemonics_def spec_operand_def spec_digit_def)
  have s2: "spec_line ''ADD 0003'' = Some 0x2003"
    by (simp add: spec_line_def spec_mnemonics_def spec_operand_def spec_digit_def)
  have sp: "spec_program ?t"
    by (simp add: spec_program_def nb s1 s2)
  have len: "length (nonempty_lines ?t) \<le> 2048"
    by (simp add: nb)
  from loadProgram_assembles [OF Memory_init_ok sp len] obtain m' where
    l: "loadProgram Memory_init (Some ?t) = (None, m')"
    and w: "\<forall>i < length (nonempty_lines ?t).
                 \<exists>w. spec_line (nonempty_lines ?t ! i) = Some w
                     \<and> readWord m' (2 * int i) = Inr w"
    by blast
  from w [rule_format, of 0] w [rule_format, of 1]
  have "readWord m' 0 = Inr 0xF005" and "readWord m' 2 = Inr 0x2003"
    by (simp_all add: nb s1 s2)
  with l sp nb Memory_init_ok show ?thesis
    by simp
qed

section \<open>End-to-end scenarios\<close>

text \<open>
  Claim C8. From zero registers and any memory that holds the four words of
  \<open>SEA 0005; ADD 0003; STA 0010; LDA 0010\<close> at addresses 0, 2, 4 and 6, four
  fetch/execute cycles succeed and leave 8 in \<open>AC\<close> and in the memory word at
  address \<open>0x10\<close>; the loop of \<open>run\<close> passes through that state.
\<close>

theorem scenario_SEA_ADD_STA_LDA:
  assumes "Memory_ok m"
    and "readWord m 0 = Inr 0xF005" and "readWord m 2 = Inr 0x2003"
    and "readWord m 4 = Inr 0x1010" and "readWord m 6 = Inr 0x0010"
  shows "\<exists>c. cycles 4 (CPU_init m) = (None, c) \<and> Register_read (AC c) = 0x0008
           \<and> readWord (memory c) 0x10 = Inr 0x0008
           \<and> run (CPU_init m) = run c"
proof -
  obtain m' where w: "writeWord m 16 8 = Inr m'"
    by (auto simp: writeWord_def MEM_SIZE_def)
  from assms(1) w have r16: "readWord m' 16 = Inr 8"
    by (rule readWord_writeWord_same)
  have "readWord m' 6 = readWord m 6"
    using w by (rule readWord_writeWord_other) simp
  with assms(5) have r6: "readWord m' 6 = Inr 0x0010"
    by simp
  have d: "decode_opcode 0xF005 = 0xF" "decode_operand 0xF005 = 5"
    "decode_opcode 0x2003 = 2" "decode_operand 0x2003 = 3"
    "decode_opcode 0x1010 = 1" "decode_operand 0x1010 = 16"
    "decode_opcode 0x0010 = 0" "decode_operand 0x0010 = 16"
    by (simp_all add: decode_opcode_word decode_operand_word)
  have c1: "cycle (CPU_init m) =
      (None, \<lparr> PC = \<lparr> reg_value = 2 \<rparr>, IR = \<lparr> reg_value = 0xF005 \<rparr>,
               AC = \<lparr> reg_value = 5 \<rparr>, memory = m \<rparr>)"
    by (simp add: cycle_def fetch_def execute_def Let_def CPU_init_def Register_init_def
          Register_read_def Register_write_def assms(2) d)
  have c2: "cycle \<lparr> PC = \<lparr> reg_value = 2 \<rparr>, IR = \<lparr> reg_value = 0xF005 \<rparr>,
               AC = \<lparr> reg_value = 5 \<rparr>, memory = m \<rparr> =
      (None, \<lparr> PC = \<lparr> reg_value = 4 \<rparr>, IR = \<lparr> reg_value = 0x2003 \<rparr>,
               AC = \<lparr> reg_value = 8 \<rparr>, memory = m \<rparr>)"
    by (simp add: cycle_def fetch_def execute_def Let_def
          Register_read_def Register_write_def assms(3) d ALU_add_def)
  have c3: "cycle \<lparr> PC = \<lparr> reg_value = 4 \<rparr>, IR = \<lparr> reg_value = 0x2003 \<rparr>,
               AC = \<lparr> reg_value = 8 \<rparr>, memory = m \<rparr> =
      (None, \<lparr> PC = \<lparr> reg_value = 6 \<rparr>, IR = \<lparr> reg_value = 0x1010 \<rparr>,
               AC = \<lparr> reg_value = 8 \<rparr>, memory = m' \<rparr>)"
    by (simp add: cycle_def fetch_def execute_def Let_def
          Register_read_def Register_write_def assms(4) d w)
  have c4: "cycle \<lparr> PC = \<lparr> reg_value = 6 \<rparr>, IR = \<lparr> reg_value = 0x1010 \<rparr>,
               AC = \<lparr> reg_value = 8 \<rparr>, memory = m' \<rparr> =
      (None, \<lparr> PC = \<lparr> reg_value = 8 \<rparr>, IR = \<lparr> reg_value = 0x0010 \<rparr>,
               AC = \<lparr> reg_value = 8 \<rparr>, memory = m' \<rparr>)"
    by (simp add: cycle_def fetch_def execute_def Let_def
          Register_read_def Register_write_def r6 r16 d)
  have c: "cycles 4 (CPU_init m) =
      (None, \<lparr> PC = \<lparr> reg_value = 8 \<rparr>, IR = \<lparr> reg_value = 0x0010 \<rparr>,
               AC = \<lparr> reg_value = 8 \<rparr>, memory = m' \<rparr>)"
    by (simp add: eval_nat_numeral c1 c2 c3 c4)
  from run_cycles [OF c] c r16 show ?thesis
    by (simp add: Register_read_def)
qed

theorem scenario_SEA_ADD_STA_LDA_witness:
  "loadProgram Memory_init
       (Some (text_of_lines [''SEA 0005'', ''ADD 0003'', ''STA 0010'', ''LDA 0010'']))
     = (None, Memory_init\<lparr> mem := (mem Memory_init)
          [0 := 0xF0, 1 := 0x05, 2 := 0x20, 3 := 0x03, 4 := 0x10, 5 := 0x10, 6 := 0x00,
           7 := 0x10] \<rparr>)
   \<and> (\<exists>c. cycles 4 (CPU_init (Memory_init\<lparr> mem := (mem Memory_init)
          [0 := 0xF0, 1 := 0x05, 2 := 0x20, 3 := 0x03, 4 := 0x10, 5 := 0x10, 6 := 0x00,
           7 := 0x10] \<rparr>)) = (None, c)
         \<and> Register_read (AC c) = 0x0008 \<and> readWord (memory c) 0x10 = Inr 0x0008)"
proof -
  let ?m = "Memory_init\<lparr> mem := (mem Memory_init)
          [0 := 0xF0, 1 := 0x05, 2 := 0x20, 3 := 0x03, 4 := 0x10, 5 := 0x10, 6 := 0x00,
           7 := 0x10] \<rparr>"
  have ld: "loadProgram Memory_init
       (Some (text_of_lines [''SEA 0005'', ''ADD 0003'', ''STA 0010'', ''LDA 0010''])) = (None, ?m)"
    by (simp add: loadProgram_def loadLoop.simps text_of_lines_def newline_def getline_def
          assemble_def find_space_def substr_to_def substr_after_def stoi16_def isspace_def
          isxdigit_def hex_value_def digit_value_def opcodeBinary_of_def writeWord_def
          MEM_SIZE_def Memory_init_def)
  have ok: "Memory_ok ?m"
    by (simp add: Memory_ok_def Memory_init_def)
  have r: "readWord ?m 0 = Inr 0xF005" "readWord ?m 2 = Inr 0x2003"
    "readWord ?m 4 = Inr 0x1010" "readWord ?m 6 = Inr 0x0010"
    by (simp_all add: readWord_def MEM_SIZE_def Memory_init_def)
  from scenario_SEA_ADD_STA_LDA [OF ok r] ld show ?thesis
    by auto
qed

text \<open>
  The program \<open>SEA 0000; DIV 0000\<close>: the second pass fails with \<open>DivisionByZero\<close>,
  which ends \<open>run\<close> with \<open>AC\<close> still 0 and \<open>PC\<close> at 4.
\<close>

lemma scenario_SEA_DIV_zero:
  assumes "readWord m 0 = Inr 0xF000" and "readWord m 2 = Inr 0x4000"
  shows "run (CPU_init m) =
      (DivisionByZero, \<lparr> PC = \<lparr> reg_value = 4 \<rparr>, IR = \<lparr> reg_value = 0x4000 \<rparr>,
                         AC = \<lparr> reg_value = 0 \<rparr>, memory = m \<rparr>)"
proof -
  have d: "decode_opcode 0xF000 = 0xF" "decode_operand 0xF000 = 0"
    "decode_opcode 0x4000 = 4" "decode_operand 0x4000 = 0"
    by (simp_all add: decode_opcode_word decode_operand_word)
  have c1: "cycle (CPU_init m) =
      (None, \<lparr> PC = \<lparr> reg_value = 2 \<rparr>, IR = \<lparr> reg_value = 0xF000 \<rparr>,
               AC = \<lparr> reg_value = 0 \<rparr>, memory = m \<rparr>)"
    by (simp add: cycle_def fetch_def execute_def Let_def CPU_init_def Register_init_def
          Register_read_def Register_write_def assms(1) d)
  have c2: "cycle \<lparr> PC = \<lparr> reg_value = 2 \<rparr>, IR = \<lparr> reg_value = 0xF000 \<rparr>,
               AC = \<lparr> reg_value = 0 \<rparr>, memory = m \<rparr> =
      (Some DivisionByZero, \<lparr> PC = \<lparr> reg_value = 4 \<rparr>, IR = \<lparr> reg_value = 0x4000 \<rparr>,
               AC = \<lparr> reg_value = 0 \<rparr>, memory = m \<rparr>)"
    by (simp add: cycle_def fetch_def execute_def Let_def
          Register_read_def Register_write_def assms(2) d ALU_div_def)
  show ?thesis
    by (subst run.simps, simp add: c1, subst run.simps, simp add: c2)
qed

end
